theory Spec2Isabelle
  imports Main
begin

section \<open>JavaScript numbers, as far as the components use them\<close>

text \<open>
  A JavaScript number is either \<open>NaN\<close> or a value. The carousel only ever computes with
  integer values (array indices and lengths, far below \<open>2^53\<close>, where the arithmetic of
  doubles is exact), so its numbers are \<open>int jsnum\<close>. Negative zero is identified with
  zero: the components never tell them apart.
\<close>

datatype 'n jsnum = NaN | Num 'n

fun js_add :: "int jsnum \<Rightarrow> int jsnum \<Rightarrow> int jsnum" where
  "js_add (Num a) (Num b) = Num (a + b)"
| "js_add _ _ = NaN"

fun js_sub :: "int jsnum \<Rightarrow> int jsnum \<Rightarrow> int jsnum" where
  "js_sub (Num a) (Num b) = Num (a - b)"
| "js_sub _ _ = NaN"

text \<open>
  The operator \<open>%\<close> is the truncating remainder: the result has the sign of the
  dividend, and a zero divisor gives \<open>NaN\<close>.
\<close>

fun js_rem :: "int jsnum \<Rightarrow> int jsnum \<Rightarrow> int jsnum" where
  "js_rem (Num a) (Num b) = (if b = 0 then NaN else Num (sgn a * (\<bar>a\<bar> mod \<bar>b\<bar>)))"
| "js_rem _ _ = NaN"

text \<open>
  Strict equality and the comparison "greater than" on numbers: every comparison with
  \<open>NaN\<close> is false.
\<close>

fun js_eq :: "int jsnum \<Rightarrow> int jsnum \<Rightarrow> bool" where
  "js_eq (Num a) (Num b) = (a = b)"
| "js_eq _ _ = False"

fun js_gt :: "int jsnum \<Rightarrow> int jsnum \<Rightarrow> bool" where
  "js_gt (Num a) (Num b) = (a > b)"
| "js_gt _ _ = False"


section \<open>The carousel: \<open>src/components/Gallery.jsx\<close>\<close>

subsection \<open>Component state and handlers\<close>

text \<open>The three \<open>useState\<close> cells of \<open>Gallery\<close> (lines 8-10).\<close>

record gallery =
  currentIndex :: "int jsnum"
  direction :: int
  animation :: bool

definition Gallery_init :: gallery where
  "Gallery_init = \<lparr>currentIndex = Num 0, direction = 0, animation = False\<rparr>"

text \<open>
  The handlers take the \<open>images\<close> prop and the state they run on, and return the state
  after their setters have been applied. \<open>images.length\<close> is \<open>int (length images)\<close>.
\<close>

definition images_length :: "'a list \<Rightarrow> int jsnum" where
  "images_length images = Num (int (length images))"

text \<open>\<open>nextImage\<close>, lines 19-24.\<close>

definition nextImage :: "'a list \<Rightarrow> gallery \<Rightarrow> gallery" where
  "nextImage images g =
     (if animation g then g
      else g\<lparr>direction := 1,
             animation := True,
             currentIndex := js_rem (js_add (currentIndex g) (Num 1)) (images_length images)\<rparr>)"

text \<open>\<open>prevImage\<close>, lines 26-33.\<close>

definition prevImage :: "'a list \<Rightarrow> gallery \<Rightarrow> gallery" where
  "prevImage images g =
     (if animation g then g
      else g\<lparr>direction := - 1,
             animation := True,
             currentIndex :=
               js_rem (js_add (js_sub (currentIndex g) (Num 1)) (images_length images))
                      (images_length images)\<rparr>)"

text \<open>
  The \<open>onClick\<close> of the indicator dot number \<open>index\<close>, lines 81-86 (the specification
  calls it \<open>jumpTo\<close>).
\<close>

definition jumpTo :: "int \<Rightarrow> gallery \<Rightarrow> gallery" where
  "jumpTo index g =
     (if animation g then g
      else g\<lparr>direction := (if js_gt (Num index) (currentIndex g) then 1 else - 1),
             animation := True,
             currentIndex := Num index\<rparr>)"

text \<open>
  The class that the render gives the slide number \<open>index\<close>, lines 41-49: the part of the
  template literal that depends on the state.
\<close>

definition slideClass :: "'a list \<Rightarrow> gallery \<Rightarrow> int \<Rightarrow> string" where
  "slideClass images g index =
     (if js_eq (Num index) (currentIndex g) then ''opacity-100 translate-x-0''
      else if js_eq (Num index)
                (js_rem (js_add (js_sub (currentIndex g) (Num 1)) (images_length images))
                        (images_length images))
        then ''opacity-0 -translate-x-full''
      else if js_eq (Num index)
                (js_rem (js_add (currentIndex g) (Num 1)) (images_length images))
        then ''opacity-0 translate-x-full''
      else ''opacity-0'')"

text \<open>The arrows and the dots are rendered only under \<open>images.length > 1\<close> (line 61).\<close>

definition controls_rendered :: "'a list \<Rightarrow> bool" where
  "controls_rendered images = (length images > 1)"

subsection \<open>The mounted component: effect, timer and teardown\<close>

text \<open>
  The effect of lines 12-17 depends on \<open>animation\<close> alone. When a render commits a
  changed \<open>animation\<close>, the cleanup of the previous run clears its timeout, and the body
  runs again: it starts a timeout of 500 time units if \<open>animation\<close> is true. \<open>timer\<close>
  holds the delay left of the pending timeout. Unmounting runs the cleanup.
\<close>

record gallery_rt =
  ui :: gallery
  timer :: "nat option"
  mounted :: bool

definition gallery_mount :: gallery_rt where
  "gallery_mount = \<lparr>ui = Gallery_init, timer = None, mounted = True\<rparr>"

definition commit :: "gallery_rt \<Rightarrow> gallery \<Rightarrow> gallery_rt" where
  "commit rt g' =
     (if animation g' = animation (ui rt) then rt\<lparr>ui := g'\<rparr>
      else rt\<lparr>ui := g', timer := (if animation g' then Some 500 else None)\<rparr>)"

text \<open>
  The events of a mounted carousel. A click runs its handler when the component is
  mounted and the controls are rendered (a dot exists for the indices of \<open>images\<close>
  only); the buttons are disabled under \<open>animation\<close>, where the handlers return at
  once anyway. \<open>Elapse d\<close> lets \<open>d\<close> time units pass: a pending timeout with at most
  that delay left runs its callback \<open>setAnimation(false)\<close>.
\<close>

datatype gallery_event = ClickNext | ClickPrev | ClickDot int | Elapse nat | Unmount

fun gallery_step :: "'a list \<Rightarrow> gallery_rt \<Rightarrow> gallery_event \<Rightarrow> gallery_rt" where
  "gallery_step images rt ClickNext =
     (if mounted rt \<and> controls_rendered images then commit rt (nextImage images (ui rt))
      else rt)"
| "gallery_step images rt ClickPrev =
     (if mounted rt \<and> controls_rendered images then commit rt (prevImage images (ui rt))
      else rt)"
| "gallery_step images rt (ClickDot k) =
     (if mounted rt \<and> controls_rendered images \<and> 0 \<le> k \<and> k < int (length images)
      then commit rt (jumpTo k (ui rt)) else rt)"
| "gallery_step images rt (Elapse d) =
     (case timer rt of
        None \<Rightarrow> rt
      | Some t \<Rightarrow>
          if d < t then rt\<lparr>timer := Some (t - d)\<rparr>
          else commit (rt\<lparr>timer := None\<rparr>) ((ui rt)\<lparr>animation := False\<rparr>))"
| "gallery_step images rt Unmount = rt\<lparr>mounted := False, timer := None\<rparr>"

definition gallery_run :: "'a list \<Rightarrow> gallery_rt \<Rightarrow> gallery_event list \<Rightarrow> gallery_rt" where
  "gallery_run images rt evs = foldl (gallery_step images) rt evs"


text \<open>
  Advancing \<open>length ds\<close> times with the arrow, waiting \<open>d\<close> time units after each click,
  for the delays \<open>d\<close> of \<open>ds\<close>.
\<close>

definition spaced_advances :: "nat list \<Rightarrow> gallery_event list" where
  "spaced_advances ds = concat (map (\<lambda>d. [ClickNext, Elapse d]) ds)"

text \<open>The index invariant of the carousel: \<open>currentIndex\<close> is an index of \<open>images\<close>.\<close>

definition index_inv :: "'a list \<Rightarrow> gallery \<Rightarrow> bool" where
  "index_inv images g =
     (case currentIndex g of NaN \<Rightarrow> False | Num i \<Rightarrow> 0 \<le> i \<and> i < int (length images))"

subsection \<open>The visual state as the specification words it\<close>

text \<open>
  The specification derives the visual state of slide \<open>i\<close> from the current index, the
  length \<open>N\<close> and the direction of the last move (\<open>1\<close> forward, \<open>- 1\<close> backward). This
  definition follows its words; \<open>visual_of_class\<close> reads a class of \<open>slideClass\<close> as
  one of its three states (a slide moved off to either side is positioned to slide in).
\<close>

datatype visual = Active | Incoming | Hidden

definition spec_visual_state :: "int \<Rightarrow> int \<Rightarrow> int \<Rightarrow> int \<Rightarrow> visual" where
  "spec_visual_state N current lastMove i =
     (if i = current then Active
      else if (i = (current + 1) mod N \<and> lastMove = 1)
            \<or> (i = (current - 1 + N) mod N \<and> lastMove = - 1) then Incoming
      else Hidden)"

definition visual_of_class :: "string \<Rightarrow> visual" where
  "visual_of_class c =
     (if c = ''opacity-100 translate-x-0'' then Active
      else if c = ''opacity-0 -translate-x-full'' \<or> c = ''opacity-0 translate-x-full''
        then Incoming
      else Hidden)"


section \<open>URL query parameters\<close>

text \<open>
  A \<open>URLSearchParams\<close> object is its list of name-value pairs, in order, with duplicates.
  Strings are byte strings: the UTF-8 bytes that the serializer of the URL standard
  works on, and that the parser decodes back to the string.
\<close>

type_synonym url_params = "(string \<times> string) list"

text \<open>\<open>get(name)\<close>: the value of the first pair with that name, or \<open>null\<close>.\<close>

definition get_param :: "url_params \<Rightarrow> string \<Rightarrow> string option" where
  "get_param sp name = map_of sp name"

text \<open>
  \<open>set(name, value)\<close>: the first pair with that name takes the value and the others are
  removed; without such a pair, the new pair is appended.
\<close>

fun set_param :: "url_params \<Rightarrow> string \<Rightarrow> string \<Rightarrow> url_params" where
  "set_param [] name v = [(name, v)]"
| "set_param ((k, w) # ps) name v =
     (if k = name then (name, v) # filter (\<lambda>p. fst p \<noteq> name) ps
      else (k, w) # set_param ps name v)"

subsection \<open>\<open>toString()\<close>: the \<open>application/x-www-form-urlencoded\<close> serializer\<close>

definition hex_digit :: "nat \<Rightarrow> char" where
  "hex_digit d = ''0123456789ABCDEF'' ! d"

text \<open>
  Bytes left as they are: the ASCII alphanumerics and \<open>* - . _\<close>. A space becomes \<open>+\<close>,
  every other byte \<open>%XX\<close> with upper-case hexadecimal digits.
\<close>

definition urlencoded_plain :: "char \<Rightarrow> bool" where
  "urlencoded_plain c =
     (let n = (of_char c :: nat) in
        (48 \<le> n \<and> n \<le> 57) \<or> (65 \<le> n \<and> n \<le> 90) \<or> (97 \<le> n \<and> n \<le> 122)
        \<or> n = 42 \<or> n = 45 \<or> n = 46 \<or> n = 95)"

definition urlencode_byte :: "char \<Rightarrow> string" where
  "urlencode_byte c =
     (if c = CHR '' '' then ''+''
      else if urlencoded_plain c then [c]
      else [CHR ''%'', hex_digit ((of_char c :: nat) div 16), hex_digit ((of_char c :: nat) mod 16)])"

definition urlencode :: "string \<Rightarrow> string" where
  "urlencode s = concat (map urlencode_byte s)"

fun serialize :: "url_params \<Rightarrow> string" where
  "serialize [] = []"
| "serialize [(n, v)] = urlencode n @ ''='' @ urlencode v"
| "serialize ((n, v) # p # ps) = urlencode n @ ''='' @ urlencode v @ ''&'' @ serialize (p # ps)"

text \<open>The text of one pair in the serialization.\<close>

definition encode_pair :: "string \<times> string \<Rightarrow> string" where
  "encode_pair p = urlencode (fst p) @ ''='' @ urlencode (snd p)"

subsection \<open>\<open>new URLSearchParams(string)\<close>: the \<open>application/x-www-form-urlencoded\<close> parser\<close>

text \<open>
  The parser splits its input at every \<open>&\<close>, skips the empty sequences, replaces \<open>+\<close>
  by a space in names and values and then percent-decodes them: \<open>%\<close> followed by two
  hexadecimal digits of either case is the byte they denote, any other \<open>%\<close> stays.
\<close>

fun split_on :: "char \<Rightarrow> string \<Rightarrow> string list" where
  "split_on c [] = [[]]"
| "split_on c (x # xs) =
     (if x = c then [] # split_on c xs
      else (x # hd (split_on c xs)) # tl (split_on c xs))"

definition is_hex :: "char \<Rightarrow> bool" where
  "is_hex c =
     (let n = (of_char c :: nat) in
        (48 \<le> n \<and> n \<le> 57) \<or> (65 \<le> n \<and> n \<le> 70) \<or> (97 \<le> n \<and> n \<le> 102))"

definition hex_value :: "char \<Rightarrow> nat" where
  "hex_value c =
     (let n = (of_char c :: nat) in
        if n \<le> 57 then n - 48 else if n \<le> 70 then n - 55 else n - 87)"

fun percent_decode :: "string \<Rightarrow> string" where
  "percent_decode [] = []"
| "percent_decode [c] = [c]"
| "percent_decode [c, a] = c # percent_decode [a]"
| "percent_decode (c # a # b # rest) =
     (if c = CHR ''%'' \<and> is_hex a \<and> is_hex b
      then char_of (16 * hex_value a + hex_value b) # percent_decode rest
      else c # percent_decode (a # b # rest))"

definition plus_to_space :: "string \<Rightarrow> string" where
  "plus_to_space s = map (\<lambda>c. if c = CHR ''+'' then CHR '' '' else c) s"

definition urldecode :: "string \<Rightarrow> string" where
  "urldecode s = percent_decode (plus_to_space s)"

text \<open>
  One sequence between two \<open>&\<close>: the name ends at the first \<open>=\<close>, and the value is empty
  when there is none.
\<close>

definition parse_pair :: "string \<Rightarrow> string \<times> string" where
  "parse_pair piece =
     (urldecode (takeWhile (\<lambda>c. c \<noteq> CHR ''='') piece),
      urldecode (drop 1 (dropWhile (\<lambda>c. c \<noteq> CHR ''='') piece)))"

definition parse :: "string \<Rightarrow> url_params" where
  "parse s = map parse_pair (filter (\<lambda>piece. piece \<noteq> []) (split_on CHR ''&'' s))"

text \<open>The constructor drops one leading \<open>?\<close> before it parses.\<close>

definition URLSearchParams_new :: "string \<Rightarrow> url_params" where
  "URLSearchParams_new init =
     parse (case init of [] \<Rightarrow> [] | c # cs \<Rightarrow> if c = CHR ''?'' then cs else init)"

text \<open>
  The query parameters of a URL without fragment: the parameters of what follows its
  first \<open>?\<close>.
\<close>

definition url_search_params :: "string \<Rightarrow> url_params" where
  "url_search_params url = parse (drop 1 (dropWhile (\<lambda>c. c \<noteq> CHR ''?'') url))"

section \<open>The product grid: \<open>ProductGridContent\<close> (\<open>src/unnamed/part_000\<close>)\<close>

subsection \<open>The parameters derived from the URL\<close>

text \<open>
  The conversions between strings and numbers are built into the language and are
  taken as parameters: \<open>StringToNumber\<close> is what \<open>Number\<close> does to a string, and
  \<open>NumberToString\<close> what a template literal and \<open>toString()\<close> do to a number. The
  carrier \<open>'n\<close> of the numbers that are not \<open>NaN\<close> is a parameter as well.
\<close>

record 'n number_builtins =
  StringToNumber :: "string \<Rightarrow> 'n jsnum"
  NumberToString :: "'n jsnum \<Rightarrow> string"

text \<open>\<open>Number(v)\<close> for \<open>v\<close> a string or \<open>null\<close>: \<open>null\<close> becomes zero.\<close>

definition js_Number :: "('n::zero) number_builtins \<Rightarrow> string option \<Rightarrow> 'n jsnum" where
  "js_Number js v = (case v of None \<Rightarrow> Num 0 | Some s \<Rightarrow> StringToNumber js s)"

text \<open>
  \<open>a || b\<close> is \<open>a\<close> when \<open>a\<close> is truthy and \<open>b\<close> otherwise. The falsy numbers are zero and
  \<open>NaN\<close>; the falsy results of \<open>get\<close> are \<open>null\<close> and the empty string.
\<close>

definition js_or_num :: "('n::zero) jsnum \<Rightarrow> 'n jsnum \<Rightarrow> 'n jsnum" where
  "js_or_num a b = (case a of NaN \<Rightarrow> b | Num x \<Rightarrow> if x = 0 then b else a)"

definition js_or_str :: "string option \<Rightarrow> string \<Rightarrow> string" where
  "js_or_str a b = (case a of None \<Rightarrow> b | Some s \<Rightarrow> if s = [] then b else s)"

text \<open>Lines 36-41.\<close>

definition currentPage :: "('n::{zero,one}) number_builtins \<Rightarrow> url_params \<Rightarrow> 'n jsnum" where
  "currentPage js searchParams = js_or_num (js_Number js (get_param searchParams ''page'')) (Num 1)"

definition category :: "url_params \<Rightarrow> string" where
  "category searchParams = js_or_str (get_param searchParams ''category'') []"

definition search :: "url_params \<Rightarrow> string" where
  "search searchParams = js_or_str (get_param searchParams ''search'') []"

definition sortBy :: "url_params \<Rightarrow> string" where
  "sortBy searchParams = js_or_str (get_param searchParams ''sortBy'') []"

definition order :: "url_params \<Rightarrow> string" where
  "order searchParams = js_or_str (get_param searchParams ''order'') []"

definition limit :: nat where
  "limit = 20"

text \<open>Lines 43-45.\<close>

definition isFilterActive :: "url_params \<Rightarrow> bool" where
  "isFilterActive searchParams =
     (category searchParams \<noteq> [] \<or> search searchParams \<noteq> [] \<or> sortBy searchParams \<noteq> [])"

text \<open>The key of the offline cache, the template literal of lines 73 and 80.\<close>

definition cacheKey :: "('n::{zero,one}) number_builtins \<Rightarrow> url_params \<Rightarrow> string" where
  "cacheKey js searchParams =
     ''products-'' @ NumberToString js (currentPage js searchParams) @ ''-''
       @ category searchParams @ ''-'' @ search searchParams @ ''-''
       @ sortBy searchParams @ ''-'' @ order searchParams"

subsection \<open>The collaborators of \<open>fetchProducts\<close>\<close>

text \<open>
  \<open>getProducts\<close> (\<open>../lib/api\<close>), \<open>firebaseDataManager\<close> and \<open>useOfflineMode\<close> are outside
  the component and are parameters. A call returns (\<open>Inr\<close>) or throws (\<open>Inl\<close>); the two
  cache functions work on a store of type \<open>'c\<close>. \<open>getFromLocalStorage\<close> returns the
  cached products or nothing (\<open>None\<close>).
\<close>

datatype js_error = JsError string

record 'n request =
  req_page :: "'n jsnum"
  req_limit :: nat
  req_category :: string
  req_search :: string
  req_sortBy :: string
  req_order :: string

record ('n, 'p, 'c) collaborators =
  isOnline :: bool
  getProducts :: "'n request \<Rightarrow> js_error + 'p list"
  saveToLocalStorage :: "string \<Rightarrow> 'p list \<Rightarrow> 'c \<Rightarrow> (js_error + unit) \<times> 'c"
  getFromLocalStorage :: "string \<Rightarrow> 'c \<Rightarrow> (js_error + 'p list option) \<times> 'c"

subsection \<open>Component state and \<open>fetchProducts\<close>\<close>

text \<open>The \<open>useState\<close> cells of lines 28-32; \<open>error\<close> is \<open>null\<close> or a message.\<close>

record 'p grid =
  products :: "'p list"
  error :: "string option"
  loading :: bool
  isReset :: bool
  hasMore :: bool

definition ProductGrid_init :: "'p grid" where
  "ProductGrid_init =
     \<lparr>products = [], error = None, loading = True, isReset = False, hasMore = True\<rparr>"

text \<open>
  Lines 59-82, the part of the \<open>try\<close> block that computes \<open>data\<close>: the value, or the
  exception that leaves the block, and the store afterwards.
\<close>

definition fetch_data ::
  "('n::{zero,one}) number_builtins \<Rightarrow> ('n, 'p, 'c) collaborators \<Rightarrow> url_params \<Rightarrow> 'c
     \<Rightarrow> (js_error + 'p list) \<times> 'c" where
  "fetch_data js env searchParams store =
     (if isOnline env then
        (case getProducts env
                \<lparr>req_page = currentPage js searchParams, req_limit = limit,
                 req_category = category searchParams, req_search = search searchParams,
                 req_sortBy = sortBy searchParams, req_order = order searchParams\<rparr> of
           Inl e \<Rightarrow> (Inl e, store)
         | Inr data \<Rightarrow>
             (case saveToLocalStorage env (cacheKey js searchParams) data store of
                (Inl e, store') \<Rightarrow> (Inl e, store')
              | (Inr _, store') \<Rightarrow> (Inr data, store')))
      else
        (case getFromLocalStorage env (cacheKey js searchParams) store of
           (Inl e, store') \<Rightarrow> (Inl e, store')
         | (Inr cached, store') \<Rightarrow>
             (Inr (case cached of None \<Rightarrow> [] | Some data \<Rightarrow> data), store')))"

text \<open>
  \<open>fetchProducts\<close>, lines 56-92: one run from \<open>setLoading(true)\<close> to the \<open>finally\<close> block,
  on the component state and the store.
\<close>

definition fetchProducts ::
  "('n::{zero,one}) number_builtins \<Rightarrow> ('n, 'p, 'c) collaborators \<Rightarrow> url_params
     \<Rightarrow> 'p grid \<times> 'c \<Rightarrow> 'p grid \<times> 'c" where
  "fetchProducts js env searchParams sc =
     (let s1 = (fst sc)\<lparr>loading := True\<rparr> in
      case fetch_data js env searchParams (snd sc) of
        (Inr data, store') \<Rightarrow>
          (s1\<lparr>products := data, hasMore := (length data = limit), error := None,
              loading := False\<rparr>, store')
      | (Inl err, store') \<Rightarrow>
          (s1\<lparr>error := Some ''Failed to load products. Please try again later.'',
              loading := False\<rparr>, store'))"

subsection \<open>Navigation and the reset timer\<close>

text \<open>
  \<open>handlePageChange\<close>, lines 98-102: the URL handed to \<open>router.push\<close>.
\<close>

definition handlePageChange ::
  "('n::{zero,one}) number_builtins \<Rightarrow> url_params \<Rightarrow> 'n jsnum \<Rightarrow> string" where
  "handlePageChange js searchParams newPage =
     (let currentParams = URLSearchParams_new (serialize searchParams) in
      ''/?'' @ serialize (set_param currentParams ''page'' (NumberToString js newPage)))"

text \<open>
  The mounted grid: its state, the URLs pushed so far, and the delays left of the
  pending timeouts of \<open>handleReset\<close>. The component registers no cleanup (its only effect,
  lines 48-50, returns none), so unmounting changes nothing but \<open>grid_mounted\<close>. A
  timeout that falls due runs \<open>setIsReset(false)\<close>; React drops a state update of an
  unmounted component.
\<close>

record 'p grid_rt =
  grid_ui :: "'p grid"
  pushed :: "string list"
  reset_timers :: "nat list"
  grid_mounted :: bool

text \<open>\<open>handleReset\<close>, lines 104-108.\<close>

definition handleReset :: "'p grid_rt \<Rightarrow> 'p grid_rt" where
  "handleReset rt =
     rt\<lparr>grid_ui := (grid_ui rt)\<lparr>isReset := True\<rparr>,
        pushed := pushed rt @ [''/''],
        reset_timers := reset_timers rt @ [100]\<rparr>"

definition grid_unmount :: "'p grid_rt \<Rightarrow> 'p grid_rt" where
  "grid_unmount rt = rt\<lparr>grid_mounted := False\<rparr>"

text \<open>The timeouts whose callback runs when \<open>d\<close> time units pass.\<close>

definition callbacks_due :: "nat \<Rightarrow> 'p grid_rt \<Rightarrow> nat list" where
  "callbacks_due d rt = filter (\<lambda>t. t \<le> d) (reset_timers rt)"

definition grid_elapse :: "nat \<Rightarrow> 'p grid_rt \<Rightarrow> 'p grid_rt" where
  "grid_elapse d rt =
     rt\<lparr>grid_ui := (if callbacks_due d rt \<noteq> [] \<and> grid_mounted rt
                     then (grid_ui rt)\<lparr>isReset := False\<rparr> else grid_ui rt),
        reset_timers := map (\<lambda>t. t - d) (filter (\<lambda>t. d < t) (reset_timers rt))\<rparr>"

subsection \<open>Instances for the examples\<close>

text \<open>
  The theorems about the grid hold for every choice of the built-in conversions and of
  the collaborators. The examples need one choice. \<open>decimal_builtins\<close> works on the
  integers: it reads an optionally signed sequence of decimal digits as its value and
  the empty string as zero, as \<open>Number\<close> does, and prints an integer in decimal, as
  \<open>toString()\<close> does below \<open>10^21\<close>. A string of any other form is read as \<open>NaN\<close> here;
  the examples use none that \<open>Number\<close> would read as a number.
\<close>

fun show_nat :: "nat \<Rightarrow> string" where
  "show_nat n = (if n < 10 then [''0123456789'' ! n]
                 else show_nat (n div 10) @ [''0123456789'' ! (n mod 10)])"

declare show_nat.simps [simp del]

definition show_int :: "int \<Rightarrow> string" where
  "show_int k = (if k < 0 then CHR ''-'' # show_nat (nat (- k)) else show_nat (nat k))"

definition is_digit :: "char \<Rightarrow> bool" where
  "is_digit c = (48 \<le> (of_char c :: nat) \<and> (of_char c :: nat) \<le> 57)"

definition read_nat :: "string \<Rightarrow> nat" where
  "read_nat s = foldl (\<lambda>a c. 10 * a + (of_char c - 48)) 0 s"

definition read_int :: "string \<Rightarrow> int jsnum" where
  "read_int s =
     (case s of
        [] \<Rightarrow> Num 0
      | c # cs \<Rightarrow>
          if c = CHR ''-'' \<and> cs \<noteq> [] \<and> list_all is_digit cs then Num (- int (read_nat cs))
          else if c = CHR ''+'' \<and> cs \<noteq> [] \<and> list_all is_digit cs then Num (int (read_nat cs))
          else if list_all is_digit s then Num (int (read_nat s))
          else NaN)"

definition decimal_builtins :: "int number_builtins" where
  "decimal_builtins =
     \<lparr>StringToNumber = read_int,
      NumberToString = (\<lambda>n. case n of NaN \<Rightarrow> ''NaN'' | Num k \<Rightarrow> show_int k)\<rparr>"

text \<open>
  A cache that keeps its entries in a list, newest first, and never throws; and
  collaborators around it, online with a data source that answers \<open>answer\<close>, or offline.
\<close>

type_synonym 'p memory_cache = "(string \<times> 'p list) list"

definition memory_save ::
  "string \<Rightarrow> 'p list \<Rightarrow> 'p memory_cache \<Rightarrow> (js_error + unit) \<times> 'p memory_cache" where
  "memory_save key data store = (Inr (), (key, data) # store)"

definition memory_get ::
  "string \<Rightarrow> 'p memory_cache \<Rightarrow> (js_error + 'p list option) \<times> 'p memory_cache" where
  "memory_get key store = (Inr (map_of store key), store)"

definition online_with ::
  "(js_error + 'p list) \<Rightarrow> (int, 'p, 'p memory_cache) collaborators" where
  "online_with answer =
     \<lparr>isOnline = True, getProducts = (\<lambda>r. answer),
      saveToLocalStorage = memory_save, getFromLocalStorage = memory_get\<rparr>"

definition offline :: "(int, 'p, 'p memory_cache) collaborators" where
  "offline =
     \<lparr>isOnline = False, getProducts = (\<lambda>r. Inl (JsError ''Failed to fetch'')),
      saveToLocalStorage = memory_save, getFromLocalStorage = memory_get\<rparr>"

text \<open>
  A mounted grid that shows a filtered listing: three products loaded for
  \<open>/?category=shoes\<close>, the reset button on screen, no timeout pending.
\<close>

definition ProductGrid_loaded :: "nat grid_rt" where
  "ProductGrid_loaded =
     \<lparr>grid_ui = \<lparr>products = [1, 2, 3], error = None, loading = False, isReset = False,
                  hasMore = False\<rparr>,
      pushed = [''/?category=shoes''], reset_timers = [], grid_mounted = True\<rparr>"


section \<open>Properties of the carousel\<close>

subsection \<open>The remainder on indices\<close>

lemma js_rem_nonneg: "0 \<le> a \<Longrightarrow> 0 < b \<Longrightarrow> js_rem (Num a) (Num b) = Num (a mod b)"
  by (cases "a = 0") (simp_all add: sgn_if)

lemma js_next_mod:
  "0 \<le> i \<Longrightarrow> i < N \<Longrightarrow> js_rem (js_add (Num i) (Num 1)) (Num N) = Num ((i + 1) mod N)"
  using js_rem_nonneg [of "i + 1" N] by simp

lemma js_prev_mod:
  "0 \<le> i \<Longrightarrow> i < N \<Longrightarrow>
   js_rem (js_add (js_sub (Num i) (Num 1)) (Num N)) (Num N) = Num ((i - 1 + N) mod N)"
  using js_rem_nonneg [of "i - 1 + N" N] by simp

subsection \<open>Visual state\<close>

text \<open>
  Claim C5, as the code has it. With \<open>currentIndex = c\<close> an index of the list of length
  \<open>N\<close>, the class of slide \<open>i\<close> is a function of \<open>c\<close>, \<open>i\<close> and \<open>N\<close> alone: the active class
  when \<open>i = c\<close>; otherwise the class positioned to the left when \<open>i = (c - 1 + N) mod N\<close>;
  otherwise the class positioned to the right when \<open>i = (c + 1) mod N\<close>; otherwise the
  hidden class. It does not depend on the direction of the last move, nor on the
  animation lock.
\<close>

theorem slideClass_pure:
  assumes "currentIndex g = Num c" "0 \<le> c" "c < int (length images)"
  shows "slideClass images g i =
           (if i = c then ''opacity-100 translate-x-0''
            else if i = (c - 1 + int (length images)) mod int (length images)
              then ''opacity-0 -translate-x-full''
            else if i = (c + 1) mod int (length images) then ''opacity-0 translate-x-full''
            else ''opacity-0'')
         \<and> slideClass images (g\<lparr>direction := d, animation := a\<rparr>) i = slideClass images g i"
  using assms
  by (simp add: slideClass_def images_length_def js_next_mod js_prev_mod
           del: js_rem.simps js_add.simps js_sub.simps)

theorem slideClass_pure_witness:
  "slideClass [''a'', ''b'', ''c''] \<lparr>currentIndex = Num 0, direction = 1, animation = False\<rparr> 2
     = ''opacity-0 -translate-x-full''
   \<and> slideClass [''a'', ''b'', ''c''] \<lparr>currentIndex = Num 0, direction = - 1, animation = True\<rparr> 2
     = ''opacity-0 -translate-x-full''"
  using slideClass_pure [where g = "\<lparr>currentIndex = Num 0, direction = 1, animation = False\<rparr>"
                            and c = 0 and images = "[''a'', ''b'', ''c'']" and i = 2
                            and d = "- 1" and a = True]
  by simp

text \<open>
  Claim C5 as stated fails. After a backward move to index 0 of three images, slide 1 is
  \<open>(0 + 1) mod 3\<close>, which the claim hides; the code gives it the class positioned to the
  right, the same class as after a forward move, where the claim calls it incoming.
\<close>

theorem slideClass_direction_counterexample:
  "slideClass [''a'', ''b'', ''c''] \<lparr>currentIndex = Num 0, direction = - 1, animation = False\<rparr> 1
     = slideClass [''a'', ''b'', ''c''] \<lparr>currentIndex = Num 0, direction = 1, animation = False\<rparr> 1
   \<and> spec_visual_state 3 0 (- 1) 1 \<noteq> spec_visual_state 3 0 1 1
   \<and> visual_of_class
        (slideClass [''a'', ''b'', ''c''] \<lparr>currentIndex = Num 0, direction = - 1, animation = False\<rparr> 1)
       \<noteq> spec_visual_state 3 0 (- 1) 1"
  by (simp add: slideClass_def images_length_def spec_visual_state_def visual_of_class_def)

subsection \<open>The animation lock\<close>

lemma commit_same: "commit rt (ui rt) = rt"
  by (simp add: commit_def)

lemma ui_commit: "ui (commit rt g') = g'"
  by (simp add: commit_def)

text \<open>
  Claim C6. While \<open>animation\<close> is true, \<open>nextImage\<close>, \<open>prevImage\<close> and the click on any dot
  return the state they were given, and the mounted component (state, timer) is left as
  it was by each of these clicks.
\<close>

theorem animating_noop:
  assumes "animation g"
  shows "nextImage images g = g \<and> prevImage images g = g \<and> jumpTo k g = g
       \<and> (ui rt = g \<longrightarrow>
            gallery_step images rt ClickNext = rt
          \<and> gallery_step images rt ClickPrev = rt
          \<and> gallery_step images rt (ClickDot k) = rt)"
proof -
  have handlers: "nextImage images g = g" "prevImage images g = g" "jumpTo k g = g"
    using assms by (simp_all add: nextImage_def prevImage_def jumpTo_def)
  have "gallery_step images rt ClickNext = rt \<and> gallery_step images rt ClickPrev = rt
        \<and> gallery_step images rt (ClickDot k) = rt" if "ui rt = g"
    using handlers commit_same [of rt] that by simp
  with handlers show ?thesis by blast
qed

theorem animating_noop_witness:
  "nextImage [''a'', ''b'', ''c''] \<lparr>currentIndex = Num 1, direction = 1, animation = True\<rparr>
     = \<lparr>currentIndex = Num 1, direction = 1, animation = True\<rparr>
   \<and> prevImage [''a'', ''b'', ''c''] \<lparr>currentIndex = Num 1, direction = 1, animation = True\<rparr>
     = \<lparr>currentIndex = Num 1, direction = 1, animation = True\<rparr>
   \<and> jumpTo 2 \<lparr>currentIndex = Num 1, direction = 1, animation = True\<rparr>
     = \<lparr>currentIndex = Num 1, direction = 1, animation = True\<rparr>
   \<and> gallery_step [''a'', ''b'', ''c'']
        \<lparr>ui = \<lparr>currentIndex = Num 1, direction = 1, animation = True\<rparr>,
         timer = Some 120, mounted = True\<rparr> ClickNext
     = \<lparr>ui = \<lparr>currentIndex = Num 1, direction = 1, animation = True\<rparr>,
        timer = Some 120, mounted = True\<rparr>"
  using animating_noop [where g = "\<lparr>currentIndex = Num 1, direction = 1, animation = True\<rparr>"
                           and images = "[''a'', ''b'', ''c'']" and k = 2
                           and rt = "\<lparr>ui = \<lparr>currentIndex = Num 1, direction = 1, animation = True\<rparr>,
                             timer = Some 120, mounted = True\<rparr>"]
  by simp

subsection \<open>The index invariant\<close>

lemma inv_next: "index_inv images g \<Longrightarrow> index_inv images (nextImage images g)"
proof -
  assume inv: "index_inv images g"
  then obtain i where i: "currentIndex g = Num i" "0 \<le> i" "i < int (length images)"
    by (auto simp: index_inv_def split: jsnum.splits)
  then have pos: "0 < int (length images)" by linarith
  show ?thesis
  proof (cases "animation g")
    case True
    with inv show ?thesis by (simp add: nextImage_def)
  next
    case False
    then have "currentIndex (nextImage images g) = Num ((i + 1) mod int (length images))"
      using i by (simp add: nextImage_def images_length_def js_next_mod
                       del: js_rem.simps js_add.simps)
    with pos show ?thesis by (simp add: index_inv_def)
  qed
qed

lemma inv_prev: "index_inv images g \<Longrightarrow> index_inv images (prevImage images g)"
proof -
  assume inv: "index_inv images g"
  then obtain i where i: "currentIndex g = Num i" "0 \<le> i" "i < int (length images)"
    by (auto simp: index_inv_def split: jsnum.splits)
  then have pos: "0 < int (length images)" by linarith
  show ?thesis
  proof (cases "animation g")
    case True
    with inv show ?thesis by (simp add: prevImage_def)
  next
    case False
    then have "currentIndex (prevImage images g)
                 = Num ((i - 1 + int (length images)) mod int (length images))"
      using i by (simp add: prevImage_def images_length_def js_prev_mod
                       del: js_rem.simps js_add.simps js_sub.simps)
    with pos show ?thesis by (simp add: index_inv_def del: mod_add_self2)
  qed
qed

lemma inv_jump:
  "index_inv images g \<Longrightarrow> 0 \<le> k \<Longrightarrow> k < int (length images) \<Longrightarrow> index_inv images (jumpTo k g)"
  by (simp add: index_inv_def jumpTo_def)

lemma inv_settle: "index_inv images g \<Longrightarrow> index_inv images (g\<lparr>animation := False\<rparr>)"
  by (simp add: index_inv_def)

lemma inv_step:
  "index_inv images (ui rt) \<Longrightarrow> index_inv images (ui (gallery_step images rt e))"
  by (cases e)
     (simp_all add: ui_commit inv_next inv_prev inv_jump inv_settle split: option.splits)

lemma inv_run:
  "index_inv images (ui rt) \<Longrightarrow> index_inv images (ui (gallery_run images rt evs))"
  unfolding gallery_run_def
  by (induction evs arbitrary: rt) (simp_all add: inv_step)

text \<open>
  Claim C8. For a non-empty image list, \<open>0 \<le> currentIndex < N\<close> holds in the initial
  state, is preserved by \<open>nextImage\<close>, by \<open>prevImage\<close> and by the click on every dot
  \<open>k\<close> with \<open>0 \<le> k < N\<close>, and so holds after every sequence of events of the mounted
  component.
\<close>

theorem index_invariant:
  assumes "images \<noteq> []"
  shows "index_inv images Gallery_init
       \<and> (index_inv images g \<longrightarrow>
            index_inv images (nextImage images g)
          \<and> index_inv images (prevImage images g)
          \<and> (\<forall>k. 0 \<le> k \<and> k < int (length images) \<longrightarrow> index_inv images (jumpTo k g)))
       \<and> (\<forall>evs. index_inv images (ui (gallery_run images gallery_mount evs)))"
proof -
  from assms have init: "index_inv images Gallery_init"
    by (simp add: index_inv_def Gallery_init_def)
  then have "index_inv images (ui gallery_mount)" by (simp add: gallery_mount_def)
  then have "\<forall>evs. index_inv images (ui (gallery_run images gallery_mount evs))"
    by (simp add: inv_run)
  with init show ?thesis by (simp add: inv_next inv_prev inv_jump)
qed

theorem index_invariant_witness:
  "index_inv [''a'', ''b''] Gallery_init
   \<and> index_inv [''a'', ''b''] (nextImage [''a'', ''b''] (Gallery_init\<lparr>currentIndex := Num 1\<rparr>))
   \<and> index_inv [''a'', ''b''] (prevImage [''a'', ''b''] Gallery_init)
   \<and> index_inv [''a'', ''b''] (jumpTo 1 Gallery_init)
   \<and> index_inv [''a'', ''b'']
        (ui (gallery_run [''a'', ''b''] gallery_mount [ClickPrev, Elapse 500, ClickNext]))"
  using index_invariant [of "[''a'', ''b'']" "Gallery_init\<lparr>currentIndex := Num 1\<rparr>"]
    index_invariant [of "[''a'', ''b'']" "Gallery_init"]
  by (simp add: index_inv_def Gallery_init_def)

subsection \<open>Advancing around the cycle\<close>

lemma advance_cycle:
  assumes "mounted rt" "\<not> animation (ui rt)" "currentIndex (ui rt) = Num i"
    "0 \<le> i" "i < int (length images)" "2 \<le> length images" "500 \<le> d"
  shows "gallery_step images (gallery_step images rt ClickNext) (Elapse d)
           = rt\<lparr>ui := (ui rt)\<lparr>direction := 1,
                               currentIndex := Num ((i + 1) mod int (length images))\<rparr>,
                 timer := None\<rparr>"
  using assms
  by (simp add: controls_rendered_def commit_def nextImage_def images_length_def js_next_mod
           del: js_rem.simps js_add.simps)

lemma advance_run:
  assumes "2 \<le> length images" "\<forall>d \<in> set ds. 500 \<le> d"
  shows "mounted rt \<Longrightarrow> \<not> animation (ui rt) \<Longrightarrow> currentIndex (ui rt) = Num i \<Longrightarrow>
    0 \<le> i \<Longrightarrow> i < int (length images) \<Longrightarrow>
    currentIndex (ui (gallery_run images rt (spaced_advances ds)))
      = Num ((i + int (length ds)) mod int (length images))
    \<and> \<not> animation (ui (gallery_run images rt (spaced_advances ds)))"
  using assms(2)
proof (induction ds arbitrary: rt i)
  case Nil
  then show ?case by (simp add: gallery_run_def spaced_advances_def)
next
  case (Cons d ds)
  let ?j = "(i + 1) mod int (length images)"
  let ?rt = "rt\<lparr>ui := (ui rt)\<lparr>direction := 1, currentIndex := Num ?j\<rparr>, timer := None\<rparr>"
  have step: "gallery_step images (gallery_step images rt ClickNext) (Elapse d) = ?rt"
    using Cons.prems assms(1) by (intro advance_cycle) simp_all
  have run: "gallery_run images rt (spaced_advances (d # ds))
               = gallery_run images ?rt (spaced_advances ds)"
    by (simp only: gallery_run_def spaced_advances_def list.map concat.simps append.simps
                   foldl.simps step)
  have pos: "0 < int (length images)" using assms(1) by auto
  have "currentIndex (ui (gallery_run images ?rt (spaced_advances ds)))
      = Num ((?j + int (length ds)) mod int (length images))
    \<and> \<not> animation (ui (gallery_run images ?rt (spaced_advances ds)))"
    using Cons.prems pos by (intro Cons.IH) simp_all
  moreover have "(?j + int (length ds)) mod int (length images)
                 = (i + int (length (d # ds))) mod int (length images)"
    by (metis add.assoc length_Cons mod_add_left_eq of_nat_Suc)
  ultimately show ?case unfolding run by simp
qed

text \<open>
  Claim C7. With at least two images, an unlocked state and \<open>currentIndex = i\<close> an index
  of the list: \<open>nextImage\<close> moves to \<open>(i + 1 + N) mod N\<close> and \<open>prevImage\<close> to
  \<open>(i - 1 + N) mod N\<close>; and \<open>N\<close> clicks on the forward arrow, each followed by a wait of
  at least the 500 time units of the lock, bring \<open>currentIndex\<close> back to \<open>i\<close>.
\<close>

theorem advance_cyclic:
  assumes "2 \<le> length images"
    and "mounted rt" "\<not> animation (ui rt)"
    and "currentIndex (ui rt) = Num i" "0 \<le> i" "i < int (length images)"
    and "length ds = length images" "\<forall>d \<in> set ds. 500 \<le> d"
  shows "currentIndex (nextImage images (ui rt))
           = Num ((i + 1 + int (length images)) mod int (length images))
       \<and> currentIndex (prevImage images (ui rt))
           = Num ((i - 1 + int (length images)) mod int (length images))
       \<and> currentIndex (ui (gallery_run images rt (spaced_advances ds))) = Num i"
proof -
  have "currentIndex (nextImage images (ui rt)) = Num ((i + 1) mod int (length images))"
    using assms by (simp add: nextImage_def images_length_def js_next_mod
                         del: js_rem.simps js_add.simps)
  moreover have "currentIndex (prevImage images (ui rt))
                   = Num ((i - 1 + int (length images)) mod int (length images))"
    using assms by (simp add: prevImage_def images_length_def js_prev_mod
                         del: js_rem.simps js_add.simps js_sub.simps)
  moreover have "currentIndex (ui (gallery_run images rt (spaced_advances ds)))
                   = Num ((i + int (length ds)) mod int (length images))"
    using advance_run [OF assms(1) assms(8) assms(2-6)] by simp
  ultimately show ?thesis using assms by simp
qed

theorem advance_cyclic_witness:
  "currentIndex (nextImage [''a'', ''b'', ''c''] (ui gallery_mount)) = Num 1
   \<and> currentIndex (prevImage [''a'', ''b'', ''c''] (ui gallery_mount)) = Num 2
   \<and> currentIndex (ui (gallery_run [''a'', ''b'', ''c''] gallery_mount
                         (spaced_advances [500, 620, 1000]))) = Num 0"
  using advance_cyclic [of "[''a'', ''b'', ''c'']" gallery_mount 0 "[500, 620, 1000]"]
  by (simp add: gallery_mount_def Gallery_init_def)

section \<open>Properties of the URL query parameters\<close>

lemma nat_less_16_cases:
  fixes d :: nat
  assumes "d = 0 \<Longrightarrow> P" "d = 1 \<Longrightarrow> P" "d = 2 \<Longrightarrow> P" "d = 3 \<Longrightarrow> P" "d = 4 \<Longrightarrow> P"
    "d = 5 \<Longrightarrow> P" "d = 6 \<Longrightarrow> P" "d = 7 \<Longrightarrow> P" "d = 8 \<Longrightarrow> P" "d = 9 \<Longrightarrow> P"
    "d = 10 \<Longrightarrow> P" "d = 11 \<Longrightarrow> P" "d = 12 \<Longrightarrow> P" "d = 13 \<Longrightarrow> P" "d = 14 \<Longrightarrow> P"
    "d = 15 \<Longrightarrow> P" "16 \<le> d \<Longrightarrow> P"
  shows P
proof -
  have "d = 0 \<or> d = 1 \<or> d = 2 \<or> d = 3 \<or> d = 4 \<or> d = 5 \<or> d = 6 \<or> d = 7 \<or> d = 8
      \<or> d = 9 \<or> d = 10 \<or> d = 11 \<or> d = 12 \<or> d = 13 \<or> d = 14 \<or> d = 15 \<or> 16 \<le> d"
    by arith
  with assms show P by blast
qed

lemma hex_digit_props:
  assumes "d < 16"
  shows "is_hex (hex_digit d)" "hex_value (hex_digit d) = d"
    "hex_digit d \<noteq> CHR ''+''" "hex_digit d \<noteq> CHR ''%''"
    "hex_digit d \<noteq> CHR ''&''" "hex_digit d \<noteq> CHR ''=''" "hex_digit d \<noteq> CHR ''?''"
proof -
  from assms consider "d = 0" | "d = 1" | "d = 2" | "d = 3" | "d = 4" | "d = 5" | "d = 6"
    | "d = 7" | "d = 8" | "d = 9" | "d = 10" | "d = 11" | "d = 12" | "d = 13" | "d = 14"
    | "d = 15"
    by (cases d rule: nat_less_16_cases) simp_all
  then have "is_hex (hex_digit d) \<and> hex_value (hex_digit d) = d
    \<and> hex_digit d \<noteq> CHR ''+'' \<and> hex_digit d \<noteq> CHR ''%''
    \<and> hex_digit d \<noteq> CHR ''&'' \<and> hex_digit d \<noteq> CHR ''='' \<and> hex_digit d \<noteq> CHR ''?''"
    by cases (simp_all add: hex_digit_def is_hex_def hex_value_def)
  then show "is_hex (hex_digit d)" "hex_value (hex_digit d) = d"
    "hex_digit d \<noteq> CHR ''+''" "hex_digit d \<noteq> CHR ''%''"
    "hex_digit d \<noteq> CHR ''&''" "hex_digit d \<noteq> CHR ''=''" "hex_digit d \<noteq> CHR ''?''"
    by simp_all
qed

lemma of_char_div_16: "(of_char c :: nat) div 16 < 16"
  using nat_of_char_less_256 [of c] by (simp add: less_mult_imp_div_less)

lemma plain_not_special:
  assumes "urlencoded_plain c"
  shows "c \<noteq> CHR ''+''" "c \<noteq> CHR ''%''" "c \<noteq> CHR ''&''" "c \<noteq> CHR ''=''" "c \<noteq> CHR ''?''"
  using assms by (auto simp: urlencoded_plain_def)

lemma percent_decode_plain: "c \<noteq> CHR ''%'' \<Longrightarrow> percent_decode (c # t) = c # percent_decode t"
  by (cases t rule: percent_decode.cases) simp_all

lemma urlencode_byte_chars:
  "x \<in> set (urlencode_byte c) \<Longrightarrow> x \<noteq> CHR ''&'' \<and> x \<noteq> CHR ''='' \<and> x \<noteq> CHR ''?''"
  using hex_digit_props(5-7) [OF of_char_div_16 [of c]]
    hex_digit_props(5-7) [of "of_char c mod 16"]
  by (auto simp: urlencode_byte_def plain_not_special split: if_splits)

lemma urlencode_chars:
  "x \<in> set (urlencode s) \<Longrightarrow> x \<noteq> CHR ''&'' \<and> x \<noteq> CHR ''='' \<and> x \<noteq> CHR ''?''"
  unfolding urlencode_def using urlencode_byte_chars by auto

lemma decode_byte:
  "percent_decode (plus_to_space (urlencode_byte c) @ t) = c # percent_decode t"
proof -
  let ?n = "of_char c :: nat"
  have hi: "?n div 16 < 16" by (rule of_char_div_16)
  have lo: "?n mod 16 < 16" by simp
  consider "c = CHR '' ''" | "c \<noteq> CHR '' ''" "urlencoded_plain c"
    | "c \<noteq> CHR '' ''" "\<not> urlencoded_plain c" by blast
  then show ?thesis
  proof cases
    case 1
    then show ?thesis by (simp add: urlencode_byte_def plus_to_space_def percent_decode_plain)
  next
    case 2
    then show ?thesis
      by (simp add: urlencode_byte_def plus_to_space_def percent_decode_plain plain_not_special)
  next
    case 3
    have "char_of (16 * (?n div 16) + ?n mod 16) = c" by simp
    with 3 show ?thesis
      by (simp add: urlencode_byte_def plus_to_space_def hex_digit_props [OF hi]
                    hex_digit_props [OF lo])
  qed
qed

lemma plus_to_space_append: "plus_to_space (a @ b) = plus_to_space a @ plus_to_space b"
  by (simp add: plus_to_space_def)

lemma urldecode_urlencode: "urldecode (urlencode s) = s"
  unfolding urldecode_def urlencode_def
  by (induction s) (simp_all add: plus_to_space_append decode_byte, simp add: plus_to_space_def)

lemma split_on_nonempty: "split_on c s \<noteq> []"
  by (induction s) simp_all

lemma split_on_none: "c \<notin> set a \<Longrightarrow> split_on c a = [a]"
  by (induction a) auto

lemma split_on_first: "c \<notin> set a \<Longrightarrow> split_on c (a @ c # t) = a # split_on c t"
  by (induction a) auto

lemma encode_pair_no_amp: "CHR ''&'' \<notin> set (encode_pair p)"
  using urlencode_chars by (auto simp: encode_pair_def)

lemma encode_pair_nonempty: "encode_pair p \<noteq> []"
  by (simp add: encode_pair_def)

lemma no_eq_urlencode: "\<forall>c \<in> set (urlencode n). c \<noteq> CHR ''=''"
  using urlencode_chars by blast

lemma parse_pair_encode: "parse_pair (encode_pair p) = p"
proof -
  have "takeWhile (\<lambda>c. c \<noteq> CHR ''='') (urlencode (fst p) @ CHR ''='' # urlencode (snd p))
          = urlencode (fst p)"
    using no_eq_urlencode [of "fst p"] by simp
  moreover
  have "dropWhile (\<lambda>c. c \<noteq> CHR ''='') (urlencode (fst p) @ CHR ''='' # urlencode (snd p))
          = CHR ''='' # urlencode (snd p)"
    using no_eq_urlencode [of "fst p"] by simp
  ultimately show ?thesis
    by (simp add: parse_pair_def encode_pair_def urldecode_urlencode)
qed

lemma serialize_Cons:
  "serialize (p # ps) = (if ps = [] then encode_pair p
                         else encode_pair p @ CHR ''&'' # serialize ps)"
  by (cases p; cases ps) (simp_all add: encode_pair_def)

lemma parse_serialize: "parse (serialize sp) = sp"
proof (induction sp)
  case Nil
  then show ?case by (simp add: parse_def)
next
  case (Cons p ps)
  show ?case
  proof (cases "ps = []")
    case True
    then show ?thesis
      by (simp add: serialize_Cons parse_def split_on_none encode_pair_no_amp
                    encode_pair_nonempty parse_pair_encode)
  next
    case False
    with Cons.IH show ?thesis
      by (simp add: serialize_Cons parse_def split_on_first encode_pair_no_amp
                    encode_pair_nonempty parse_pair_encode)
  qed
qed

lemma serialize_no_question: "CHR ''?'' \<notin> set (serialize sp)"
proof (induction sp)
  case Nil
  then show ?case by simp
next
  case (Cons p ps)
  have "CHR ''?'' \<notin> set (encode_pair p)"
    using urlencode_chars by (auto simp: encode_pair_def)
  with Cons show ?case by (simp add: serialize_Cons)
qed

lemma URLSearchParams_copy: "URLSearchParams_new (serialize sp) = sp"
proof -
  have "(case serialize sp of [] \<Rightarrow> [] | c # cs \<Rightarrow> if c = CHR ''?'' then cs else serialize sp)
          = serialize sp"
    using serialize_no_question [of sp] by (cases "serialize sp") auto
  then show ?thesis by (simp add: URLSearchParams_new_def parse_serialize)
qed

lemma get_set_param_same: "get_param (set_param sp name v) name = Some v"
  by (induction sp) (auto simp: get_param_def)

lemma get_set_param_other:
  "k \<noteq> name \<Longrightarrow> get_param (set_param sp name v) k = get_param sp k"
proof (induction sp)
  case Nil
  then show ?case by (simp add: get_param_def)
next
  case (Cons p ps)
  have drop_name: "map_of (filter (\<lambda>p. fst p \<noteq> name) qs) k = map_of qs k"
    for qs :: url_params
    using Cons.prems by (induction qs) auto
  from Cons show ?case
    by (cases p) (auto simp: get_param_def drop_name)
qed

lemma others_set_param:
  "filter (\<lambda>p. fst p \<noteq> name) (set_param sp name v) = filter (\<lambda>p. fst p \<noteq> name) sp"
  by (induction sp) auto

lemma pages_set_param:
  "filter (\<lambda>p. fst p = name) (set_param sp name v) = [(name, v)]"
  by (induction sp) (auto simp: filter_empty_conv)

lemma pushed_url_params:
  "url_search_params (handlePageChange js sp n) = set_param sp ''page'' (NumberToString js n)"
  by (simp add: handlePageChange_def URLSearchParams_copy url_search_params_def parse_serialize)

text \<open>
  Claim C9. The URL that \<open>handlePageChange\<close> pushes has as query parameters those of the
  current URL with \<open>page\<close> set to the text of the new page number: exactly one \<open>page\<close>
  pair, with that value, and every pair of another name kept, in order; so every
  other parameter reads as before, and \<open>category\<close>, \<open>search\<close>, \<open>sortBy\<close> and \<open>order\<close> are
  unchanged.
\<close>

theorem changePage_preserves_others:
  "url_search_params (handlePageChange js sp n) = set_param sp ''page'' (NumberToString js n)
 \<and> get_param (url_search_params (handlePageChange js sp n)) ''page'' = Some (NumberToString js n)
 \<and> filter (\<lambda>p. fst p = ''page'') (url_search_params (handlePageChange js sp n))
      = [(''page'', NumberToString js n)]
 \<and> filter (\<lambda>p. fst p \<noteq> ''page'') (url_search_params (handlePageChange js sp n))
      = filter (\<lambda>p. fst p \<noteq> ''page'') sp
 \<and> (\<forall>k. k \<noteq> ''page'' \<longrightarrow>
        get_param (url_search_params (handlePageChange js sp n)) k = get_param sp k)
 \<and> category (url_search_params (handlePageChange js sp n)) = category sp
 \<and> search (url_search_params (handlePageChange js sp n)) = search sp
 \<and> sortBy (url_search_params (handlePageChange js sp n)) = sortBy sp
 \<and> order (url_search_params (handlePageChange js sp n)) = order sp"
  unfolding pushed_url_params
  by (simp add: get_set_param_same get_set_param_other others_set_param pages_set_param
                category_def search_def sortBy_def order_def)

theorem changePage_preserves_others_witness:
  "handlePageChange decimal_builtins [(''category'', ''shoes'')] (Num 5)
     = ''/?category=shoes&page=5''
   \<and> get_param (url_search_params ''/?category=shoes&page=5'') ''page'' = Some ''5''
   \<and> get_param (url_search_params ''/?category=shoes&page=5'') ''category'' = Some ''shoes''"
proof -
  have url: "handlePageChange decimal_builtins [(''category'', ''shoes'')] (Num 5)
           = ''/?category=shoes&page=5''"
    by code_simp
  have five: "NumberToString decimal_builtins (Num 5) = ''5''"
    by code_simp
  show ?thesis
    using changePage_preserves_others
            [where js = decimal_builtins and sp = "[(''category'', ''shoes'')]" and n = "Num 5"]
    unfolding url five by (simp add: get_param_def)
qed

section \<open>Properties of the product grid\<close>

subsection \<open>The page number\<close>

text \<open>
  Claim C10. The page number is 1 when \<open>page\<close> is absent, when its value is read as
  \<open>NaN\<close> and when it is read as zero; every other number that the value is read as
  passes unaltered, a negative one too, so the page number need not be positive.
\<close>

theorem currentPage_fallback:
  "(get_param sp ''page'' = None \<longrightarrow> currentPage js sp = Num 1)
 \<and> (get_param sp ''page'' = Some v \<and> StringToNumber js v = NaN \<longrightarrow> currentPage js sp = Num 1)
 \<and> (get_param sp ''page'' = Some v \<and> StringToNumber js v = Num 0 \<longrightarrow> currentPage js sp = Num 1)
 \<and> (get_param sp ''page'' = Some v \<and> StringToNumber js v = Num x \<and> x \<noteq> 0
       \<longrightarrow> currentPage js sp = Num x)"
  by (simp add: currentPage_def js_Number_def js_or_num_def)

theorem currentPage_fallback_witness:
  "currentPage decimal_builtins [(''category'', ''shoes'')] = Num 1
 \<and> currentPage decimal_builtins [(''page'', ''abc'')] = Num 1
 \<and> currentPage decimal_builtins [(''page'', ''0'')] = Num 1
 \<and> currentPage decimal_builtins [(''page'', ''-3'')] = Num (- 3)"
proof -
  have reads: "StringToNumber decimal_builtins ''abc'' = NaN"
    "StringToNumber decimal_builtins ''0'' = Num 0"
    "StringToNumber decimal_builtins ''-3'' = Num (- 3)"
    by (simp_all add: decimal_builtins_def read_int_def is_digit_def read_nat_def)
  show ?thesis
    using currentPage_fallback [where sp = "[(''category'', ''shoes'')]" and js = decimal_builtins]
      currentPage_fallback
        [where sp = "[(''page'', ''abc'')]" and v = "''abc''" and js = decimal_builtins]
      currentPage_fallback
        [where sp = "[(''page'', ''0'')]" and v = "''0''" and js = decimal_builtins]
      currentPage_fallback
        [where sp = "[(''page'', ''-3'')]" and v = "''-3''" and js = decimal_builtins
           and x = "- 3"]
    by (simp add: reads get_param_def)
qed

subsection \<open>One run of \<open>fetchProducts\<close>\<close>

text \<open>
  Claim C1. When the component is online and the call to the product data source
  throws, the run ends with \<open>loading = false\<close> and \<open>error\<close> set to the message, a value
  other than \<open>null\<close>; \<open>products\<close>, \<open>hasMore\<close> and the rest of the state are as before the
  run, and so is the cache.
\<close>

theorem fetch_failure_keeps_products:
  assumes "isOnline env"
    and "getProducts env
           \<lparr>req_page = currentPage js sp, req_limit = 20, req_category = category sp,
            req_search = search sp, req_sortBy = sortBy sp, req_order = order sp\<rparr> = Inl e"
  shows "fetchProducts js env sp (s, c)
           = (s\<lparr>loading := False,
                 error := Some ''Failed to load products. Please try again later.''\<rparr>, c)
       \<and> loading (fst (fetchProducts js env sp (s, c))) = False
       \<and> error (fst (fetchProducts js env sp (s, c))) \<noteq> None
       \<and> products (fst (fetchProducts js env sp (s, c))) = products s
       \<and> hasMore (fst (fetchProducts js env sp (s, c))) = hasMore s"
  using assms by (simp add: fetchProducts_def fetch_data_def limit_def)

theorem fetch_failure_keeps_products_witness:
  "fetchProducts decimal_builtins (online_with (Inl (JsError ''503''))) [(''page'', ''2'')]
     (\<lparr>products = [4, 5, 6 :: nat], error = None, loading = False, isReset = False,
       hasMore = True\<rparr>, [])
   = (\<lparr>products = [4, 5, 6], error = Some ''Failed to load products. Please try again later.'',
       loading = False, isReset = False, hasMore = True\<rparr>, [])"
  using fetch_failure_keeps_products
          [where env = "online_with (Inl (JsError ''503''))" and js = decimal_builtins
             and sp = "[(''page'', ''2'')]" and e = "JsError ''503''"
             and s = "\<lparr>products = [4, 5, 6 :: nat], error = None, loading = False,
                       isReset = False, hasMore = True\<rparr>"
             and c = "[]"]
  by (simp add: online_with_def)

text \<open>
  Claim C2. When the component is offline and the cache has no entry under the key
  \<open>products-{page}-{category}-{search}-{sortBy}-{order}\<close>, the run ends with \<open>products\<close>
  empty, \<open>hasMore = false\<close>, \<open>error = null\<close> and \<open>loading = false\<close>.
\<close>

theorem fetch_offline_miss:
  assumes "\<not> isOnline env"
    and "getFromLocalStorage env
           (''products-'' @ NumberToString js (currentPage js sp) @ ''-'' @ category sp @ ''-''
              @ search sp @ ''-'' @ sortBy sp @ ''-'' @ order sp) c = (Inr None, c')"
  shows "fetchProducts js env sp (s, c)
           = (s\<lparr>products := [], hasMore := False, error := None, loading := False\<rparr>, c')"
  using assms by (simp add: fetchProducts_def fetch_data_def limit_def cacheKey_def)

theorem fetch_offline_miss_witness:
  "fetchProducts decimal_builtins offline [(''page'', ''2''), (''category'', ''shoes'')]
     (\<lparr>products = [4, 5, 6 :: nat], error = Some ''old'', loading = False, isReset = False,
       hasMore = True\<rparr>, [(''products-1-shoes---'', [7, 8])])
   = (\<lparr>products = [], error = None, loading = False, isReset = False, hasMore = False\<rparr>,
      [(''products-1-shoes---'', [7, 8])])"
proof -
  have key: "''products-''
      @ NumberToString decimal_builtins
          (currentPage decimal_builtins [(''page'', ''2''), (''category'', ''shoes'')])
      @ ''-'' @ category [(''page'', ''2''), (''category'', ''shoes'')] @ ''-''
      @ search [(''page'', ''2''), (''category'', ''shoes'')] @ ''-''
      @ sortBy [(''page'', ''2''), (''category'', ''shoes'')] @ ''-''
      @ order [(''page'', ''2''), (''category'', ''shoes'')] = ''products-2-shoes---''"
    by code_simp
  show ?thesis
    using fetch_offline_miss
            [where env = offline and js = decimal_builtins
               and sp = "[(''page'', ''2''), (''category'', ''shoes'')]"
               and c = "[(''products-1-shoes---'', [7, 8 :: nat])]"
               and c' = "[(''products-1-shoes---'', [7, 8])]"
               and s = "\<lparr>products = [4, 5, 6 :: nat], error = Some ''old'', loading = False,
                         isReset = False, hasMore = True\<rparr>"]
    unfolding key by (simp add: offline_def memory_get_def)
qed

text \<open>
  Claim C3. A run completes without failure when, online, the data source returns
  \<open>data\<close> and the cache stores it, or when, offline, the cache read returns and \<open>data\<close>
  is the cached value or the empty sequence. Such a run sets \<open>products\<close> to \<open>data\<close>,
  \<open>hasMore\<close> to whether \<open>data\<close> has exactly 20 records, and \<open>error\<close> to \<open>null\<close>.
\<close>

theorem fetch_success_hasMore:
  assumes "(isOnline env
            \<and> getProducts env
                 \<lparr>req_page = currentPage js sp, req_limit = 20, req_category = category sp,
                  req_search = search sp, req_sortBy = sortBy sp, req_order = order sp\<rparr>
                = Inr data
            \<and> saveToLocalStorage env (cacheKey js sp) data c = (Inr (), c'))
         \<or> (\<not> isOnline env
            \<and> getFromLocalStorage env (cacheKey js sp) c = (Inr cached, c')
            \<and> data = (case cached of None \<Rightarrow> [] | Some d \<Rightarrow> d))"
  shows "fetchProducts js env sp (s, c)
           = (s\<lparr>products := data, hasMore := (length data = 20), error := None,
                 loading := False\<rparr>, c')"
  using assms by (auto simp add: fetchProducts_def fetch_data_def limit_def)

theorem fetch_success_hasMore_witness:
  "fst (fetchProducts decimal_builtins (online_with (Inr (replicate 20 (0 :: nat))))
          [(''page'', ''2'')] (ProductGrid_init, []))
     = \<lparr>products = replicate 20 0, error = None, loading = False, isReset = False,
        hasMore = True\<rparr>
   \<and> fst (fetchProducts decimal_builtins (online_with (Inr (replicate 7 (0 :: nat))))
          [(''page'', ''2'')] (ProductGrid_init, []))
     = \<lparr>products = replicate 7 0, error = None, loading = False, isReset = False,
        hasMore = False\<rparr>"
  using fetch_success_hasMore
          [where env = "online_with (Inr (replicate 20 (0 :: nat)))" and js = decimal_builtins
             and sp = "[(''page'', ''2'')]" and data = "replicate 20 0" and c = "[]"
             and c' = "[(cacheKey decimal_builtins [(''page'', ''2'')], replicate 20 0)]"
             and cached = None and s = ProductGrid_init]
        fetch_success_hasMore
          [where env = "online_with (Inr (replicate 7 (0 :: nat)))" and js = decimal_builtins
             and sp = "[(''page'', ''2'')]" and data = "replicate 7 0" and c = "[]"
             and c' = "[(cacheKey decimal_builtins [(''page'', ''2'')], replicate 7 0)]"
             and cached = None and s = ProductGrid_init]
  by (simp add: online_with_def memory_save_def ProductGrid_init_def)

subsection \<open>Timers and teardown\<close>

lemma gallery_unmounted_inert:
  assumes "\<not> mounted rt" "timer rt = None"
  shows "gallery_step images rt e = rt"
  using assms by (cases e) simp_all

text \<open>
  The carousel cancels its timer at teardown: after \<open>Unmount\<close> no timeout is pending,
  and no later event changes the component.
\<close>

lemma gallery_unmount_cancels:
  "timer (gallery_step images rt Unmount) = None
 \<and> gallery_run images (gallery_step images rt Unmount) evs = gallery_step images rt Unmount"
proof -
  have "gallery_run images rt' evs = rt'" if "\<not> mounted rt'" "timer rt' = None" for rt'
    using that unfolding gallery_run_def
    by (induction evs) (simp_all add: gallery_unmounted_inert)
  then show ?thesis by simp
qed

text \<open>
  Claim C4 on the grid. The timeout of \<open>handleReset\<close> is not cancelled at teardown: when
  the grid is unmounted right after \<open>handleReset\<close>, the timeout of 100 time units is
  still pending, and its callback runs once 100 time units have passed, on a component
  that is no longer mounted.
\<close>

theorem reset_timer_outlives_unmount:
  "reset_timers (grid_unmount (handleReset ProductGrid_loaded)) = [100]
 \<and> \<not> grid_mounted (grid_unmount (handleReset ProductGrid_loaded))
 \<and> callbacks_due 100 (grid_unmount (handleReset ProductGrid_loaded)) = [100]
 \<and> reset_timers (grid_elapse 100 (grid_unmount (handleReset ProductGrid_loaded))) = []"
  by (simp add: grid_unmount_def handleReset_def ProductGrid_loaded_def callbacks_due_def
                grid_elapse_def)

text \<open>
  While the grid stays mounted, the timeout does what it is for: 100 time units after
  \<open>handleReset\<close> the flag is false again and no timeout is pending.
\<close>

lemma reset_flag_clears:
  "isReset (grid_ui (handleReset rt))
 \<and> (grid_mounted rt \<longrightarrow> \<not> isReset (grid_ui (grid_elapse 100 (handleReset rt))))
 \<and> (reset_timers rt = [] \<longrightarrow> reset_timers (grid_elapse 100 (handleReset rt)) = [])"
  by (simp add: handleReset_def grid_elapse_def callbacks_due_def)

subsection \<open>The filter flag\<close>

lemma isFilterActive_examples:
  "isFilterActive [(''category'', ''shoes''), (''sortBy'', ''price''), (''order'', ''asc'')]"
  "\<not> isFilterActive [(''page'', ''3'')]"
  by (simp_all add: isFilterActive_def category_def search_def sortBy_def js_or_str_def
                    get_param_def)

end
